theory Spec2Isabelle
  imports Main "HOL-Library.Sublist" "HOL-Library.Char_ord" "HOL-Library.List_Lexorder"
begin

section \<open>Strings and the regular expressions the code uses\<close>

text \<open>
  JavaScript strings are modelled as \<open>string\<close> (a list of 8-bit characters) and the SQL text
  is taken to be ASCII: \<open>toUpperCase\<close>, \<open>toLowerCase\<close>, \<open>\w\<close>, \<open>\s\<close> and \<open>trim\<close> are
  given on ASCII, and a character above 127 is left unchanged and is neither a word
  character nor white space.
\<close>

definition toUpperChar :: "char \<Rightarrow> char" where
  "toUpperChar c =
     (let n = (of_char c :: nat) in if 97 \<le> n \<and> n \<le> 122 then char_of (n - 32) else c)"

definition toLowerChar :: "char \<Rightarrow> char" where
  "toLowerChar c =
     (let n = (of_char c :: nat) in if 65 \<le> n \<and> n \<le> 90 then char_of (n + 32) else c)"

definition toUpperCase :: "string \<Rightarrow> string" where
  "toUpperCase s = map toUpperChar s"

definition toLowerCase :: "string \<Rightarrow> string" where
  "toLowerCase s = map toLowerChar s"

text \<open>The class \<open>\w\<close>: \<open>[A-Za-z0-9_]\<close>.\<close>

definition isWordChar :: "char \<Rightarrow> bool" where
  "isWordChar c =
     (let n = (of_char c :: nat) in
      (48 \<le> n \<and> n \<le> 57) \<or> (65 \<le> n \<and> n \<le> 90) \<or> n = 95 \<or> (97 \<le> n \<and> n \<le> 122))"

text \<open>The class \<open>\s\<close>, which is also what \<open>trim\<close> strips: tab, line feed, vertical tab,
  form feed, carriage return and space.\<close>

definition isSpaceChar :: "char \<Rightarrow> bool" where
  "isSpaceChar c = (let n = (of_char c :: nat) in (9 \<le> n \<and> n \<le> 13) \<or> n = 32)"

text \<open>The characters \<open>.\<close> does not match: line feed and carriage return.\<close>

definition isLineTerminator :: "char \<Rightarrow> bool" where
  "isLineTerminator c = (let n = (of_char c :: nat) in n = 10 \<or> n = 13)"

definition trim :: "string \<Rightarrow> string" where
  "trim s = rev (dropWhile isSpaceChar (rev (dropWhile isSpaceChar s)))"

text \<open>\<open>s.includes(sub)\<close>.\<close>

definition str_includes :: "string \<Rightarrow> string \<Rightarrow> bool" where
  "str_includes s sub = sublist sub s"

text \<open>\<open>s.split(sep)\<close> for a one-character separator: \<open>"a;b;"\<close> gives \<open>["a", "b", ""]\<close>.\<close>

fun split_aux :: "char \<Rightarrow> string \<Rightarrow> string \<Rightarrow> string list" where
  "split_aux sep cur [] = [cur]"
| "split_aux sep cur (c # cs) =
     (if c = sep then cur # split_aux sep [] cs else split_aux sep (cur @ [c]) cs)"

definition split_str :: "char \<Rightarrow> string \<Rightarrow> string list" where
  "split_str sep s = split_aux sep [] s"

text \<open>
  A match is tried at each offset of the input, left to right. At an offset the matcher
  sees the character before it (\<open>None\<close> at the start of the input) and the rest of the
  input from the offset on.

  The assertion \<open>\b\<close> between two neighbours: exactly one of them is a word character
  (the start and the end of the input count as non-word characters).
\<close>

definition is_word :: "char option \<Rightarrow> bool" where
  "is_word x = (case x of None \<Rightarrow> False | Some c \<Rightarrow> isWordChar c)"

definition boundary :: "char option \<Rightarrow> char option \<Rightarrow> bool" where
  "boundary left right = (is_word left \<noteq> is_word right)"

definition first_char :: "string \<Rightarrow> char option" where
  "first_char s = (case s of [] \<Rightarrow> None | c # cs \<Rightarrow> Some c)"

text \<open>The character before the offset reached by consuming \<open>m\<close> after \<open>prev\<close>.\<close>

definition char_before :: "char option \<Rightarrow> string \<Rightarrow> char option" where
  "char_before prev m = (if m = [] then prev else Some (last m))"

text \<open>A literal \<open>kw\<close> under the flag \<open>i\<close> matches at the start of \<open>s\<close>: both sides are
  compared after canonicalisation, which on ASCII is upper-casing.\<close>

definition starts_with_ci :: "string \<Rightarrow> string \<Rightarrow> bool" where
  "starts_with_ci kw s =
     (length kw \<le> length s \<and> map toUpperChar (take (length kw) s) = map toUpperChar kw)"

text \<open>\<open>\bKW\b\<close> (flag \<open>i\<close>) matches at this offset.\<close>

definition word_here :: "string \<Rightarrow> char option \<Rightarrow> string \<Rightarrow> bool" where
  "word_here kw prev s =
     (if boundary prev (first_char s)
      then (if starts_with_ci kw s
            then boundary (char_before prev (take (length kw) s)) (first_char (drop (length kw) s))
            else False)
      else False)"

text \<open>\<open>new RegExp(`\\b${kw}\\b`, 'i').test(s)\<close>: the pattern matches at some offset.\<close>

fun test_word_from :: "string \<Rightarrow> char option \<Rightarrow> string \<Rightarrow> bool" where
  "test_word_from kw prev [] = word_here kw prev []"
| "test_word_from kw prev (c # cs) =
     (if word_here kw prev (c # cs) then True else test_word_from kw (Some c) cs)"

definition test_word :: "string \<Rightarrow> string \<Rightarrow> bool" where
  "test_word kw s = test_word_from kw None s"

text \<open>
  \<open>/^\s*KW/i.test(s)\<close> and \<open>/^\s*KW\b/i.test(s)\<close>, for a keyword that does not begin with
  white space: \<open>\s*\<close> can only stop where the leading white space of \<open>s\<close> ends, since
  anywhere earlier the next character is white space and not the keyword's first one.
  What \<open>\s*\<close> skipped is white space, so the character before the keyword is no word
  character, as at the start of the input.
\<close>

definition test_prefix :: "string \<Rightarrow> string \<Rightarrow> bool" where
  "test_prefix kw s = starts_with_ci kw (dropWhile isSpaceChar s)"

definition test_prefix_word :: "string \<Rightarrow> string \<Rightarrow> bool" where
  "test_prefix_word kw s =
     (let r = dropWhile isSpaceChar s
      in starts_with_ci kw r
         \<and> boundary (char_before None (take (length kw) r)) (first_char (drop (length kw) r)))"

text \<open>
  \<open>/\bKW1\b.*\bKW2\b/i.test(s)\<close>, used with WITH and AS: a whole word \<open>KW1\<close>, then any
  characters of the same line (\<open>.\<close> matches no line terminator), then a whole word \<open>KW2\<close>.
\<close>

fun word_on_line :: "string \<Rightarrow> char option \<Rightarrow> string \<Rightarrow> bool" where
  "word_on_line kw prev [] = word_here kw prev []"
| "word_on_line kw prev (c # cs) =
     (if word_here kw prev (c # cs) then True
      else if isLineTerminator c then False
      else word_on_line kw (Some c) cs)"

definition cte_here :: "string \<Rightarrow> string \<Rightarrow> char option \<Rightarrow> string \<Rightarrow> bool" where
  "cte_here kw1 kw2 prev s =
     (if word_here kw1 prev s
      then word_on_line kw2 (char_before prev (take (length kw1) s)) (drop (length kw1) s)
      else False)"

fun test_cte_from :: "string \<Rightarrow> string \<Rightarrow> char option \<Rightarrow> string \<Rightarrow> bool" where
  "test_cte_from kw1 kw2 prev [] = cte_here kw1 kw2 prev []"
| "test_cte_from kw1 kw2 prev (c # cs) =
     (if cte_here kw1 kw2 prev (c # cs) then True else test_cte_from kw1 kw2 (Some c) cs)"

definition test_cte :: "string \<Rightarrow> string \<Rightarrow> string \<Rightarrow> bool" where
  "test_cte kw1 kw2 s = test_cte_from kw1 kw2 None s"

text \<open>\<open>s.match(/\b\w+\b/g) || []\<close>: the maximal runs of word characters, left to right.\<close>

fun tokens_aux :: "string \<Rightarrow> string \<Rightarrow> string list" where
  "tokens_aux cur [] = (if cur = [] then [] else [cur])"
| "tokens_aux cur (c # cs) =
     (if isWordChar c then tokens_aux (cur @ [c]) cs
      else (if cur = [] then [] else [cur]) @ tokens_aux [] cs)"

definition tokens :: "string \<Rightarrow> string list" where
  "tokens s = tokens_aux [] s"

text \<open>\<open>s.replace(/;$/, '')\<close>: without the flag \<open>m\<close>, \<open>$\<close> is the end of the input.\<close>

definition strip_semicolon :: "string \<Rightarrow> string" where
  "strip_semicolon s = (if s \<noteq> [] \<and> last s = CHR '';'' then butlast s else s)"

section \<open>The policy store (\<open>role_permissions\<close> and the functions of rbac.js)\<close>

text \<open>A row of the table \<open>role_permissions\<close> of schema.sql; the table is the list of its
  rows. \<open>UNIQUE(role, operation)\<close> is not assumed.\<close>

record RolePermission =
  perm_role :: string
  perm_operation :: string
  is_allowed :: int
  max_rows :: int

text \<open>The rows schema.sql inserts.\<close>

definition default_role_permissions :: "RolePermission list" where
  "default_role_permissions =
    [\<lparr>perm_role = ''ADMIN'', perm_operation = ''SELECT'', is_allowed = 1, max_rows = 100000\<rparr>,
     \<lparr>perm_role = ''ADMIN'', perm_operation = ''INSERT'', is_allowed = 1, max_rows = 100000\<rparr>,
     \<lparr>perm_role = ''ADMIN'', perm_operation = ''UPDATE'', is_allowed = 1, max_rows = 100000\<rparr>,
     \<lparr>perm_role = ''ADMIN'', perm_operation = ''DELETE'', is_allowed = 1, max_rows = 100000\<rparr>,
     \<lparr>perm_role = ''ADMIN'', perm_operation = ''JOIN'', is_allowed = 1, max_rows = 100000\<rparr>,
     \<lparr>perm_role = ''ADMIN'', perm_operation = ''CTE'', is_allowed = 1, max_rows = 100000\<rparr>,
     \<lparr>perm_role = ''DEVELOPER'', perm_operation = ''SELECT'', is_allowed = 1, max_rows = 10000\<rparr>,
     \<lparr>perm_role = ''DEVELOPER'', perm_operation = ''INSERT'', is_allowed = 0, max_rows = 0\<rparr>,
     \<lparr>perm_role = ''DEVELOPER'', perm_operation = ''UPDATE'', is_allowed = 0, max_rows = 0\<rparr>,
     \<lparr>perm_role = ''DEVELOPER'', perm_operation = ''DELETE'', is_allowed = 0, max_rows = 0\<rparr>,
     \<lparr>perm_role = ''DEVELOPER'', perm_operation = ''JOIN'', is_allowed = 1, max_rows = 10000\<rparr>,
     \<lparr>perm_role = ''DEVELOPER'', perm_operation = ''CTE'', is_allowed = 1, max_rows = 10000\<rparr>,
     \<lparr>perm_role = ''ANALYST'', perm_operation = ''SELECT'', is_allowed = 1, max_rows = 1000\<rparr>,
     \<lparr>perm_role = ''ANALYST'', perm_operation = ''INSERT'', is_allowed = 0, max_rows = 0\<rparr>,
     \<lparr>perm_role = ''ANALYST'', perm_operation = ''UPDATE'', is_allowed = 0, max_rows = 0\<rparr>,
     \<lparr>perm_role = ''ANALYST'', perm_operation = ''DELETE'', is_allowed = 0, max_rows = 0\<rparr>,
     \<lparr>perm_role = ''ANALYST'', perm_operation = ''JOIN'', is_allowed = 0, max_rows = 0\<rparr>,
     \<lparr>perm_role = ''ANALYST'', perm_operation = ''CTE'', is_allowed = 0, max_rows = 0\<rparr>]"

text \<open>\<open>permissionQueries.isOperationAllowed.get(role, operation)\<close>: the first row with
  that role and operation, or nothing.\<close>

definition isOperationAllowed :: "RolePermission list \<Rightarrow> string \<Rightarrow> string \<Rightarrow> RolePermission option" where
  "isOperationAllowed tbl r opn = find (\<lambda>p. perm_role p = r \<and> perm_operation p = opn) tbl"

text \<open>
  \<open>permissionQueries.getByRole.all(role)\<close>. The query has no \<open>ORDER BY\<close>; SQLite answers
  it through the index of \<open>UNIQUE(role, operation)\<close>, so the role's rows come ordered by
  operation (byte by byte), whatever the order they were inserted in.
\<close>

definition getByRole :: "RolePermission list \<Rightarrow> string \<Rightarrow> RolePermission list" where
  "getByRole tbl r = sort_key perm_operation (filter (\<lambda>p. perm_role p = r) tbl)"

record OpPermission =
  allowed :: bool
  maxRows :: int

definition checkOperationPermission :: "RolePermission list \<Rightarrow> string \<Rightarrow> string \<Rightarrow> OpPermission" where
  "checkOperationPermission tbl r opn =
     (if opn = ''DDL'' then \<lparr>allowed = (r = ''ADMIN''), maxRows = 0\<rparr>
      else if opn = ''UNKNOWN'' then \<lparr>allowed = False, maxRows = 0\<rparr>
      else (case isOperationAllowed tbl r (toUpperCase opn) of
              None \<Rightarrow> \<lparr>allowed = False, maxRows = 0\<rparr>
            | Some permission \<Rightarrow>
                \<lparr>allowed = (is_allowed permission = 1), maxRows = max_rows permission\<rparr>))"

record RolePermissions =
  allowedOperations :: "string list"
  roleMaxRows :: int

text \<open>The loop body of \<open>getRolePermissions\<close>: \<open>perm.is_allowed\<close> is truthy when it is not 0.\<close>

definition addPermission :: "RolePermission \<Rightarrow> RolePermissions \<Rightarrow> RolePermissions" where
  "addPermission perm result =
     (if is_allowed perm \<noteq> 0
      then \<lparr>allowedOperations = allowedOperations result @ [perm_operation perm],
            roleMaxRows = max (roleMaxRows result) (max_rows perm)\<rparr>
      else result)"

definition getRolePermissions :: "RolePermission list \<Rightarrow> string \<Rightarrow> RolePermissions" where
  "getRolePermissions tbl r =
     fold addPermission (getByRole tbl r) \<lparr>allowedOperations = [], roleMaxRows = 1000\<rparr>"

text \<open>The operation detection of \<open>validateSqlPermissions\<close>, on the upper-cased, trimmed SQL.\<close>

definition detect_operation :: "string \<Rightarrow> string" where
  "detect_operation upperSql =
     (if test_prefix ''SELECT'' upperSql \<or> test_prefix ''WITH'' upperSql then ''SELECT''
      else if test_prefix ''INSERT'' upperSql \<or> test_prefix ''INTO'' upperSql then ''INSERT''
      else if test_prefix ''UPDATE'' upperSql then ''UPDATE''
      else if test_prefix ''DELETE'' upperSql then ''DELETE''
      else if list_ex (\<lambda>kw. test_prefix kw upperSql)
                [''CREATE'', ''DROP'', ''ALTER'', ''TRUNCATE'', ''GRANT'', ''REVOKE'', ''RENAME'']
           then ''DDL''
      else ''UNKNOWN'')"

datatype permission_error =
    NoOperationPermission string
  | NoJoinPermission
  | NoCtePermission

record PermissionCheck =
  valid :: bool
  perm_error :: "permission_error option"
  checkMaxRows :: int

definition validateSqlPermissions :: "RolePermission list \<Rightarrow> string \<Rightarrow> string \<Rightarrow> PermissionCheck" where
  "validateSqlPermissions tbl sql r =
     (let upperSql = trim (toUpperCase sql);
          operation = detect_operation upperSql;
          opPermission = checkOperationPermission tbl r operation
      in if \<not> allowed opPermission
         then \<lparr>valid = False, perm_error = Some (NoOperationPermission operation), checkMaxRows = 0\<rparr>
         else if test_word ''JOIN'' upperSql \<and> \<not> allowed (checkOperationPermission tbl r ''JOIN'')
         then \<lparr>valid = False, perm_error = Some NoJoinPermission, checkMaxRows = 0\<rparr>
         else if test_cte ''WITH'' ''AS'' upperSql \<and> \<not> allowed (checkOperationPermission tbl r ''CTE'')
         then \<lparr>valid = False, perm_error = Some NoCtePermission, checkMaxRows = 0\<rparr>
         else \<lparr>valid = True, perm_error = None, checkMaxRows = maxRows opPermission\<rparr>)"

section \<open>The client-side validator (sqlValidator.ts)\<close>

datatype UserRole = ANALYST | DEVELOPER | ADMIN

text \<open>A table of the schema; \<open>validate\<close> does not read its columns.\<close>

record TableSchema =
  tableName :: string
  restrictedRoles :: "UserRole list option"

definition MOCK_DATABASE_SCHEMA :: "TableSchema list" where
  "MOCK_DATABASE_SCHEMA =
    [\<lparr>tableName = ''sales_orders'', restrictedRoles = None\<rparr>,
     \<lparr>tableName = ''inventory'', restrictedRoles = None\<rparr>,
     \<lparr>tableName = ''financial_reports'', restrictedRoles = Some [DEVELOPER, ADMIN]\<rparr>,
     \<lparr>tableName = ''system_logs'', restrictedRoles = Some [ADMIN]\<rparr>]"

definition FORBIDDEN_SQL_KEYWORDS :: "string list" where
  "FORBIDDEN_SQL_KEYWORDS =
    [''DROP'', ''TRUNCATE'', ''ALTER'', ''DELETE'', ''UPDATE'', ''INSERT'', ''REPLACE'',
     ''GRANT'', ''REVOKE'', ''CREATE'', ''RENAME'', ''EXEC'', ''EXECUTE'', ''DATABASE'', ''SCHEMA'']"

datatype validation_error =
    ForbiddenKeyword string
  | MultipleStatements
  | AccessDenied string

record ValidationResult =
  isValid :: bool
  error :: "validation_error option"
  sanitizedSql :: "string option"

text \<open>Step 1: the first forbidden keyword, in the order of the list, that occurs in the
  SQL as a whole word.\<close>

definition forbidden_keyword :: "string \<Rightarrow> string option" where
  "forbidden_keyword sql = find (\<lambda>keyword. test_word keyword sql) FORBIDDEN_SQL_KEYWORDS"

text \<open>Step 2: more than one segment between semicolons is not blank.\<close>

definition multiple_statements :: "string \<Rightarrow> bool" where
  "multiple_statements sql =
     (str_includes sql '';'' \<and>
      1 < length (filter (\<lambda>p. 0 < length (trim p)) (split_str (CHR '';'') sql)))"

text \<open>Step 3: the first token of the SQL that names a table of the schema the role may
  not read.\<close>

definition denied_table :: "UserRole \<Rightarrow> TableSchema list \<Rightarrow> string \<Rightarrow> string option" where
  "denied_table r activeSchema sql =
     (if 0 < length activeSchema then
        (let accessibleTables =
               map (\<lambda>t. toLowerCase (tableName t))
                 (filter (\<lambda>t. case restrictedRoles t of None \<Rightarrow> True | Some rs \<Rightarrow> r \<in> set rs)
                    activeSchema);
             sqlTokens = tokens (toLowerCase sql);
             usedTables =
               filter (\<lambda>token. list_ex (\<lambda>s. toLowerCase (tableName s) = token) activeSchema)
                 sqlTokens
         in find (\<lambda>t. t \<notin> set accessibleTables) usedTables)
      else None)"

text \<open>Step 4: the row limit.\<close>

definition enforce_limit :: "string \<Rightarrow> string" where
  "enforce_limit sql =
     (let upperSql = toUpperCase sql;
          sanitizedSql = strip_semicolon (trim sql);
          isSelectOrCTE =
            (test_prefix_word ''SELECT'' sanitizedSql \<or> test_prefix_word ''WITH'' sanitizedSql)
      in if isSelectOrCTE \<and> \<not> str_includes upperSql ''ROWNUM''
            \<and> \<not> str_includes upperSql ''FETCH FIRST''
         then ''SELECT * FROM ('' @ sanitizedSql @ '') WHERE ROWNUM <= 1000''
         else sanitizedSql)"

definition validate :: "string \<Rightarrow> UserRole \<Rightarrow> TableSchema list option \<Rightarrow> ValidationResult" where
  "validate sql r schema =
     (let activeSchema = (case schema of None \<Rightarrow> MOCK_DATABASE_SCHEMA | Some s \<Rightarrow> s) in
      case (if r \<noteq> ADMIN then forbidden_keyword sql else None) of
        Some keyword \<Rightarrow>
          \<lparr>isValid = False, error = Some (ForbiddenKeyword keyword), sanitizedSql = None\<rparr>
      | None \<Rightarrow>
          if multiple_statements sql
          then \<lparr>isValid = False, error = Some MultipleStatements, sanitizedSql = None\<rparr>
          else (case denied_table r activeSchema sql of
                  Some t \<Rightarrow> \<lparr>isValid = False, error = Some (AccessDenied t), sanitizedSql = None\<rparr>
                | None \<Rightarrow> \<lparr>isValid = True, error = None, sanitizedSql = Some (enforce_limit sql)\<rparr>))"

section \<open>From the generated SQL to the executor (App.tsx and routes/query.js)\<close>

text \<open>The values of the enum \<open>UserRole\<close>: the role as the server reads it.\<close>

fun role_name :: "UserRole \<Rightarrow> string" where
  "role_name ANALYST = ''ANALYST''"
| "role_name DEVELOPER = ''DEVELOPER''"
| "role_name ADMIN = ''ADMIN''"

datatype refusal =
    NoSqlGenerated
  | ClientRejected "validation_error option"
  | SqlRequired
  | ServerRejected "permission_error option"

text \<open>What the route hands to \<open>executeQuery\<close>: the SQL and \<open>permissionCheck.maxRows\<close>.\<close>

record PreparedQuery =
  final_sql :: string
  final_maxRows :: int

text \<open>
  The path of a query, for a user who has selected a database they have access to.
  The client stops on blank SQL, runs \<open>SQLValidator.validate\<close>, throws its error when the
  result is not valid, and posts \<open>validation.sanitizedSql\<close>. The route answers 400 when no
  SQL or blank SQL arrives, runs \<open>validateSqlPermissions\<close> on what it received, answers
  403 with its error when that is not valid, and otherwise calls
  \<open>executeQuery(connectionId, sql, permissionCheck.maxRows)\<close>.
\<close>

definition prepare_query ::
    "RolePermission list \<Rightarrow> string \<Rightarrow> UserRole \<Rightarrow> TableSchema list option \<Rightarrow>
     refusal + PreparedQuery" where
  "prepare_query tbl sql r schema =
     (if trim sql = [] then Inl NoSqlGenerated
      else (let validation = validate sql r schema in
            if \<not> isValid validation then Inl (ClientRejected (error validation))
            else (case sanitizedSql validation of
                    None \<Rightarrow> Inl SqlRequired
                  | Some finalSql \<Rightarrow>
                      if trim finalSql = [] then Inl SqlRequired
                      else (let permissionCheck =
                                  validateSqlPermissions tbl finalSql (role_name r)
                            in if \<not> valid permissionCheck
                               then Inl (ServerRejected (perm_error permissionCheck))
                               else Inr \<lparr>final_sql = finalSql,
                                        final_maxRows = checkMaxRows permissionCheck\<rparr>))))"

section \<open>The connection pool manager and the query executor (connectionPool.js)\<close>

text \<open>A row of \<open>db_connections\<close>; \<open>is_active\<close> is SQLite's integer flag.\<close>

record DbConnectionConfig =
  conn_id :: int
  conn_name :: string
  db_type :: string
  host :: string
  port :: int
  database_name :: string
  username :: string
  password_encrypted :: string
  is_active :: int

text \<open>
  What the module reads from outside: the rows of \<open>db_connections\<close>, \<open>decrypt\<close> (which
  throws on a malformed blob: \<open>None\<close>), and whether the dynamic import of an engine's
  driver succeeds.
\<close>

record environment =
  connections :: "DbConnectionConfig list"
  decrypt :: "string \<Rightarrow> string option"
  driver_installed :: "string \<Rightarrow> bool"

datatype pool_error =
    ConnectionNotFound int
  | ConnectionInactive string
  | InvalidEncryptedData
  | DriverNotInstalled string
  | UnsupportedDatabaseType string
  | UnknownPoolType string
  | UnknownDatabaseType string
  | ExecutionError string

text \<open>\<open>{ type, pool }\<close>: the driver's pool object is opaque, so it is identified by the
  number of pool constructor calls made before its own.\<close>

record PoolInfo =
  pool_type :: string
  pool_serial :: nat

text \<open>
  The module's state: the map \<open>pools\<close>, and, as a ghost field, the connection ids for which
  a driver's pool constructor (\<open>oracledb.createPool\<close>, \<open>mysql.createPool\<close>, \<open>new Pool\<close>) has
  been called, in call order.
\<close>

record pool_state =
  pools :: "int \<Rightarrow> PoolInfo option"
  constructions :: "int list"

text \<open>\<open>connectionQueries.findById.get(connectionId)\<close>.\<close>

definition findById :: "DbConnectionConfig list \<Rightarrow> int \<Rightarrow> DbConnectionConfig option" where
  "findById rows_of_table cid = find (\<lambda>c. conn_id c = cid) rows_of_table"

definition getDriver :: "environment \<Rightarrow> string \<Rightarrow> pool_error + string" where
  "getDriver e dbType =
     (let t = toUpperCase dbType in
      if t = ''ORACLE'' \<or> t = ''MYSQL'' \<or> t = ''POSTGRESQL''
      then (if driver_installed e t then Inr t else Inl (DriverNotInstalled t))
      else Inl (UnsupportedDatabaseType dbType))"

text \<open>
  \<open>createPool(connection)\<close>; \<open>serial\<close> names the pool the driver constructs. The driver's
  constructor is taken to succeed (an unreachable host is outside the model), and for
  Oracle the driver's refusal of a \<open>poolAlias\<close> that is in use is not modelled.
\<close>

definition createPool :: "environment \<Rightarrow> DbConnectionConfig \<Rightarrow> nat \<Rightarrow> pool_error + PoolInfo" where
  "createPool e connection serial =
     (case decrypt e (password_encrypted connection) of
        None \<Rightarrow> Inl InvalidEncryptedData
      | Some password \<Rightarrow>
          (let t = toUpperCase (db_type connection) in
           if t = ''ORACLE'' \<or> t = ''MYSQL'' \<or> t = ''POSTGRESQL''
           then (case getDriver e t of
                   Inl err \<Rightarrow> Inl err
                 | Inr driver \<Rightarrow> Inr \<lparr>pool_type = t, pool_serial = serial\<rparr>)
           else Inl (UnsupportedDatabaseType (db_type connection))))"

text \<open>
  \<open>getConnection\<close> is an \<open>async\<close> function: a call runs synchronously up to its first
  \<open>await\<close> and the rest runs later, as a continuation. \<open>getConnection_begin\<close> is the
  synchronous part: the lookup of the config, the two checks and \<open>pools.has\<close>; it changes
  nothing. On a miss the call is suspended at \<open>await createPool(connConfig)\<close>; on a hit
  it has read the registered pool with \<open>pools.get\<close> and is suspended borrowing from it.
\<close>

datatype connection_task =
    Failed pool_error
  | AwaitingPool DbConnectionConfig
  | PoolPresent PoolInfo

definition getConnection_begin :: "environment \<Rightarrow> pool_state \<Rightarrow> int \<Rightarrow> connection_task" where
  "getConnection_begin e st connectionId =
     (case findById (connections e) connectionId of
        None \<Rightarrow> Failed (ConnectionNotFound connectionId)
      | Some connConfig \<Rightarrow>
          if is_active connConfig = 0 then Failed (ConnectionInactive (conn_name connConfig))
          else (case pools st connectionId of
                  None \<Rightarrow> AwaitingPool connConfig
                | Some poolInfo \<Rightarrow> PoolPresent poolInfo))"

text \<open>What \<open>getConnection\<close> returns: the borrowed connection is opaque and is identified
  by the pool it was borrowed from.\<close>

record ConnectionHandle =
  from_pool :: nat
  conn_type :: string

text \<open>The tail of \<open>getConnection\<close>: the switch on the type of the pool that
  \<open>pools.get\<close> returned.\<close>

definition borrow :: "PoolInfo \<Rightarrow> pool_error + ConnectionHandle" where
  "borrow poolInfo =
     (if pool_type poolInfo = ''ORACLE'' \<or> pool_type poolInfo = ''MYSQL''
         \<or> pool_type poolInfo = ''POSTGRESQL''
      then Inr \<lparr>from_pool = pool_serial poolInfo, conn_type = pool_type poolInfo\<rparr>
      else Inl (UnknownPoolType (pool_type poolInfo)))"

text \<open>
  The continuation of a call: for a call suspended on a miss, \<open>createPool\<close> completes (the
  pool is constructed), \<open>pools.set\<close> registers it, \<open>pools.get\<close> reads it back and the
  connection is borrowed from it. The registry written is the one the continuation
  finds, not the one the call began on.
\<close>

definition getConnection_resume ::
    "environment \<Rightarrow> pool_state \<Rightarrow> int \<Rightarrow> connection_task \<Rightarrow> (pool_error + ConnectionHandle) \<times> pool_state" where
  "getConnection_resume e st connectionId task =
     (case task of
        Failed err \<Rightarrow> (Inl err, st)
      | PoolPresent poolInfo \<Rightarrow> (borrow poolInfo, st)
      | AwaitingPool connConfig \<Rightarrow>
          (case createPool e connConfig (length (constructions st)) of
             Inl err \<Rightarrow> (Inl err, st)
           | Inr poolInfo \<Rightarrow>
               (let st' = st\<lparr>pools := (pools st)(connectionId \<mapsto> poolInfo),
                              constructions := constructions st @ [connectionId]\<rparr>
                in (borrow poolInfo, st'))))"

text \<open>A call with no other call interleaved.\<close>

definition getConnection ::
    "environment \<Rightarrow> pool_state \<Rightarrow> int \<Rightarrow> (pool_error + ConnectionHandle) \<times> pool_state" where
  "getConnection e st connectionId =
     getConnection_resume e st connectionId (getConnection_begin e st connectionId)"

text \<open>
  Calls issued together (\<open>Promise.all(ids.map(getConnection))\<close>): every call runs its
  synchronous part before any continuation runs, then the continuations run in the order of
  the calls.
\<close>

definition resume_step ::
    "environment \<Rightarrow> int \<times> connection_task \<Rightarrow>
     (pool_error + ConnectionHandle) list \<times> pool_state \<Rightarrow>
     (pool_error + ConnectionHandle) list \<times> pool_state" where
  "resume_step e call acc =
     (case getConnection_resume e (snd acc) (fst call) (snd call) of
        (res, s') \<Rightarrow> (fst acc @ [res], s'))"

definition resume_all ::
    "environment \<Rightarrow> (int \<times> connection_task) list \<Rightarrow> pool_state \<Rightarrow>
     (pool_error + ConnectionHandle) list \<times> pool_state" where
  "resume_all e tasks st = fold (resume_step e) tasks ([], st)"

definition getConnection_concurrently ::
    "environment \<Rightarrow> pool_state \<Rightarrow> int list \<Rightarrow> (pool_error + ConnectionHandle) list \<times> pool_state" where
  "getConnection_concurrently e st ids =
     resume_all e (map (\<lambda>connectionId. (connectionId, getConnection_begin e st connectionId)) ids) st"

text \<open>
  What a driver hands back for a statement: \<open>metaData\<close> or \<open>fields\<close> (the column names,
  possibly absent) and the row array (for Oracle possibly absent).
\<close>

record 'r DriverResult =
  result_fields :: "string list option"
  result_rows :: "'r list option"

text \<open>
  The driver call: the engine, the SQL and the \<open>maxRows\<close> execute option (which only the
  Oracle branch passes) give the driver's result, or the message of the error it throws.
\<close>

type_synonym 'r driver = "string \<Rightarrow> string \<Rightarrow> int option \<Rightarrow> string + 'r DriverResult"

text \<open>\<open>rows.slice(0, maxRows)\<close> for an integer \<open>maxRows\<close>: a negative end counts from the
  end of the array.\<close>

definition slice0 :: "'a list \<Rightarrow> int \<Rightarrow> 'a list" where
  "slice0 xs e = (if e < 0 then take (nat (int (length xs) + e)) xs else take (nat e) xs)"

text \<open>The result of \<open>executeQuery\<close>, without \<open>executionTimeMs\<close> (wall-clock time).\<close>

record 'r QueryResult =
  columns :: "string list"
  rows :: "'r list"
  rowCount :: nat

definition run_on :: "environment \<Rightarrow> 'r driver \<Rightarrow> string \<Rightarrow> string \<Rightarrow> int \<Rightarrow> pool_error + 'r QueryResult" where
  "run_on e drv t sql maxRows' =
     (if t = ''ORACLE'' then
        (case getDriver e ''ORACLE'' of
           Inl err \<Rightarrow> Inl err
         | Inr oracledb \<Rightarrow>
             (case drv ''ORACLE'' sql (Some maxRows') of
                Inl msg \<Rightarrow> Inl (ExecutionError msg)
              | Inr result \<Rightarrow>
                  Inr \<lparr>columns = (case result_fields result of Some fs \<Rightarrow> fs | None \<Rightarrow> []),
                       rows = (case result_rows result of Some rs \<Rightarrow> rs | None \<Rightarrow> []),
                       rowCount = (case result_rows result of Some rs \<Rightarrow> length rs | None \<Rightarrow> 0)\<rparr>))
      else if t = ''MYSQL'' \<or> t = ''POSTGRESQL'' then
        (case drv t sql None of
           Inl msg \<Rightarrow> Inl (ExecutionError msg)
         | Inr result \<Rightarrow>
             (case result_rows result of
                None \<Rightarrow> Inl (ExecutionError ''TypeError'')
              | Some rs \<Rightarrow>
                  (let limitedRows = slice0 rs maxRows' in
                   Inr \<lparr>columns = (case result_fields result of Some fs \<Rightarrow> fs | None \<Rightarrow> []),
                        rows = limitedRows,
                        rowCount = length limitedRows\<rparr>)))
      else Inl (UnknownDatabaseType t))"

text \<open>\<open>executeQuery(connectionId, sql, maxRows)\<close>, called with a \<open>maxRows\<close> as the query route
  does (the default of an omitted \<open>maxRows\<close> is 1000); the connection is released on every
  path, which leaves the registry as \<open>getConnection\<close> left it.\<close>

definition executeQuery ::
    "environment \<Rightarrow> 'r driver \<Rightarrow> pool_state \<Rightarrow> int \<Rightarrow> string \<Rightarrow> int \<Rightarrow>
     (pool_error + 'r QueryResult) \<times> pool_state" where
  "executeQuery e drv st connectionId sql maxRows' =
     (case getConnection e st connectionId of
        (Inl err, st') \<Rightarrow> (Inl err, st')
      | (Inr conn, st') \<Rightarrow> (run_on e drv (conn_type conn) sql maxRows', st'))"

section \<open>Sample data for the examples\<close>

definition sample_connection :: "int \<Rightarrow> string \<Rightarrow> int \<Rightarrow> DbConnectionConfig" where
  "sample_connection i t active =
     \<lparr>conn_id = i, conn_name = ''reporting'', db_type = t, host = ''db.internal'', port = 5432,
      database_name = ''app'', username = ''sentinel'', password_encrypted = ''iv:tag:secret'',
      is_active = active\<rparr>"

text \<open>Three configured databases, the third switched off; \<open>decrypt\<close> wants the three
  parts \<open>iv:authTag:ciphertext\<close>; every driver is installed.\<close>

definition sample_environment :: environment where
  "sample_environment =
     \<lparr>connections = [sample_connection 1 ''MYSQL'' 1, sample_connection 2 ''ORACLE'' 1,
                      sample_connection 3 ''POSTGRESQL'' 0],
      decrypt = (\<lambda>blob. if length (split_str (CHR '':'') blob) = 3 then Some ''secret'' else None),
      driver_installed = (\<lambda>t. True)\<rparr>"

definition empty_registry :: pool_state where
  "empty_registry = \<lparr>pools = (\<lambda>connectionId. None), constructions = []\<rparr>"

text \<open>
  A backend whose table holds the given rows, with the one column \<open>id\<close>. The MySQL and
  PostgreSQL drivers return every row. The Oracle driver applies the execute option
  \<open>maxRows\<close> it is handed, for which node-oracledb documents 0 as no limit.
\<close>

definition table_driver :: "nat list \<Rightarrow> nat driver" where
  "table_driver table t sql limit =
     Inr \<lparr>result_fields = Some [''id''],
          result_rows = Some (case limit of
                                None \<Rightarrow> table
                              | Some m \<Rightarrow> if m = 0 then table else take (nat m) table)\<rparr>"

section \<open>Keywords\<close>

text \<open>A keyword as the patterns of this program have them: not empty, made of word
  characters, in upper case.\<close>

definition plain_keyword :: "string \<Rightarrow> bool" where
  "plain_keyword kw = (kw \<noteq> [] \<and> list_all isWordChar kw \<and> map toUpperChar kw = kw)"

text \<open>The five low bits of a character code are a letter's: 1 to 26.\<close>

definition letter_bits :: "bool \<Rightarrow> bool \<Rightarrow> bool \<Rightarrow> bool \<Rightarrow> bool \<Rightarrow> bool" where
  "letter_bits b0 b1 b2 b3 b4 =
     ((b0 \<or> b1 \<or> b2 \<or> b3 \<or> b4) \<and> \<not> (b4 \<and> b3 \<and> (b2 \<or> (b1 \<and> b0))))"

section \<open>The character classes, bit by bit\<close>

text \<open>
  The character classes and the case mappings read off the eight bits of a character
  (least significant first), each checked against its definition on all 256 characters.
  They are the code equations, so that a concrete string is evaluated without arithmetic.
\<close>

lemma isWordChar_Char [code]:
  "isWordChar (Char b0 b1 b2 b3 b4 b5 b6 b7) =
     (\<not> b7 \<and> ((\<not> b6 \<and> b5 \<and> b4 \<and> (\<not> b3 \<or> (\<not> b2 \<and> \<not> b1)))
       \<or> (b6 \<and> letter_bits b0 b1 b2 b3 b4)
       \<or> (b6 \<and> \<not> b5 \<and> b4 \<and> b3 \<and> b2 \<and> b1 \<and> b0)))"
  by (cases b0; cases b1; cases b2; cases b3; cases b4; cases b5; cases b6; cases b7;
      simp add: isWordChar_def letter_bits_def)

lemma isSpaceChar_Char [code]:
  "isSpaceChar (Char b0 b1 b2 b3 b4 b5 b6 b7) =
     (\<not> b7 \<and> \<not> b6 \<and> \<not> b4
      \<and> ((\<not> b5 \<and> b3 \<and> ((\<not> b2 \<and> (b1 \<or> b0)) \<or> (b2 \<and> \<not> b1)))
         \<or> (b5 \<and> \<not> b3 \<and> \<not> b2 \<and> \<not> b1 \<and> \<not> b0)))"
  by (cases b0; cases b1; cases b2; cases b3; cases b4; cases b5; cases b6; cases b7;
      simp add: isSpaceChar_def)

lemma isLineTerminator_Char [code]:
  "isLineTerminator (Char b0 b1 b2 b3 b4 b5 b6 b7) =
     (\<not> b7 \<and> \<not> b6 \<and> \<not> b5 \<and> \<not> b4 \<and> b3
      \<and> ((\<not> b2 \<and> b1 \<and> \<not> b0) \<or> (b2 \<and> \<not> b1 \<and> b0)))"
  by (cases b0; cases b1; cases b2; cases b3; cases b4; cases b5; cases b6; cases b7;
      simp add: isLineTerminator_def)

lemma toUpperChar_Char [code]:
  "toUpperChar (Char b0 b1 b2 b3 b4 b5 b6 b7) =
     (if \<not> b7 \<and> b6 \<and> b5 \<and> letter_bits b0 b1 b2 b3 b4
      then Char b0 b1 b2 b3 b4 False b6 b7 else Char b0 b1 b2 b3 b4 b5 b6 b7)"
  by (cases b0; cases b1; cases b2; cases b3; cases b4; cases b5; cases b6; cases b7;
      simp add: toUpperChar_def letter_bits_def char_of_eq_iff)

lemma toLowerChar_Char [code]:
  "toLowerChar (Char b0 b1 b2 b3 b4 b5 b6 b7) =
     (if \<not> b7 \<and> b6 \<and> \<not> b5 \<and> letter_bits b0 b1 b2 b3 b4
      then Char b0 b1 b2 b3 b4 True b6 b7 else Char b0 b1 b2 b3 b4 b5 b6 b7)"
  by (cases b0; cases b1; cases b2; cases b3; cases b4; cases b5; cases b6; cases b7;
      simp add: toLowerChar_def letter_bits_def char_of_eq_iff)

section \<open>Whole words\<close>

lemma isWordChar_toUpperChar: "isWordChar (toUpperChar c) = isWordChar c"
  by (auto simp: toUpperChar_def isWordChar_def Let_def)

lemma isWordChar_not_space: "isWordChar c \<Longrightarrow> \<not> isSpaceChar c"
  by (auto simp: isWordChar_def isSpaceChar_def Let_def)

lemma list_all_word_upper:
  "list_all isWordChar (map toUpperChar w) = list_all isWordChar w"
  by (induction w) (simp_all add: isWordChar_toUpperChar)

lemma is_word_first_char: "is_word (first_char s) = (s \<noteq> [] \<and> isWordChar (hd s))"
  by (cases s) (simp_all add: is_word_def first_char_def)

lemma is_word_None: "\<not> is_word None"
  by (simp add: is_word_def)

lemma is_word_char_before:
  "is_word (char_before prev m) = (if m = [] then is_word prev else isWordChar (last m))"
  by (simp add: is_word_def char_before_def)

text \<open>What the text matched by a keyword looks like.\<close>

lemma keyword_match:
  assumes "plain_keyword kw" and "toUpperCase w = kw"
  shows "w \<noteq> []" and "isWordChar (hd w)" and "isWordChar (last w)"
    and "length w = length kw" and "map toUpperChar w = map toUpperChar kw"
proof -
  from assms show ne: "w \<noteq> []" and "length w = length kw"
    and "map toUpperChar w = map toUpperChar kw"
    by (auto simp: plain_keyword_def toUpperCase_def)
  from assms have "list_all isWordChar (map toUpperChar w)"
    by (simp add: plain_keyword_def toUpperCase_def)
  then have "list_all isWordChar w"
    by (simp only: list_all_word_upper)
  with ne show "isWordChar (hd w)" and "isWordChar (last w)"
    by (simp_all add: list_all_iff)
qed

text \<open>
  The scanner against the declarative reading of "occurs as a whole word": the input
  splits into a prefix, a word equal to the keyword up to case, and a suffix, with no word
  character next to the word on either side.
\<close>

lemma word_here_append:
  assumes kw: "plain_keyword kw" and len: "length w = length kw"
  shows "word_here kw prev (w @ post) =
           (toUpperCase w = kw \<and> \<not> is_word prev \<and> (post = [] \<or> \<not> isWordChar (hd post)))"
proof (cases "toUpperCase w = kw")
  case False
  with kw len show ?thesis
    by (simp add: word_here_def starts_with_ci_def plain_keyword_def toUpperCase_def)
next
  case True
  note m = keyword_match [OF kw True]
  from m len have "starts_with_ci kw (w @ post)"
    by (simp add: starts_with_ci_def)
  moreover from m have "is_word (first_char (w @ post))"
    by (simp add: is_word_first_char)
  moreover from m len have "is_word (char_before prev (take (length kw) (w @ post)))"
    by (simp add: is_word_char_before)
  moreover from len have "drop (length kw) (w @ post) = post"
    by simp
  ultimately show ?thesis
    using True by (auto simp: word_here_def boundary_def is_word_first_char)
qed

lemma word_here_iff:
  assumes kw: "plain_keyword kw"
  shows "word_here kw prev s =
           (\<not> is_word prev \<and> (\<exists>w post. s = w @ post \<and> toUpperCase w = kw
               \<and> (post = [] \<or> \<not> isWordChar (hd post))))"
proof (cases "length kw \<le> length s")
  case True
  define w where "w = take (length kw) s"
  define post where "post = drop (length kw) s"
  have s: "s = w @ post" and len: "length w = length kw"
    using True by (simp_all add: w_def post_def)
  have "(\<exists>w' post'. s = w' @ post' \<and> toUpperCase w' = kw
               \<and> (post' = [] \<or> \<not> isWordChar (hd post'))) =
        (toUpperCase w = kw \<and> (post = [] \<or> \<not> isWordChar (hd post)))"
  proof
    assume "\<exists>w' post'. s = w' @ post' \<and> toUpperCase w' = kw
               \<and> (post' = [] \<or> \<not> isWordChar (hd post'))"
    then obtain w' post' where d: "s = w' @ post'" "toUpperCase w' = kw"
        "post' = [] \<or> \<not> isWordChar (hd post')"
      by blast
    from d(2) have "length w' = length kw"
      by (auto simp: toUpperCase_def)
    with d(1) have "w' = w" "post' = post"
      by (simp_all add: w_def post_def)
    with d show "toUpperCase w = kw \<and> (post = [] \<or> \<not> isWordChar (hd post))"
      by simp
  next
    assume "toUpperCase w = kw \<and> (post = [] \<or> \<not> isWordChar (hd post))"
    with s show "\<exists>w' post'. s = w' @ post' \<and> toUpperCase w' = kw
               \<and> (post' = [] \<or> \<not> isWordChar (hd post'))"
      by blast
  qed
  with word_here_append [OF kw len, of prev post] s show ?thesis
    by auto
next
  case False
  then have "\<not> word_here kw prev s"
    by (simp add: word_here_def starts_with_ci_def)
  moreover have "\<not> (\<exists>w post. s = w @ post \<and> toUpperCase w = kw
               \<and> (post = [] \<or> \<not> isWordChar (hd post)))"
    using False by (auto simp: toUpperCase_def)
  ultimately show ?thesis
    by simp
qed

lemma test_word_from_iff:
  assumes kw: "plain_keyword kw"
  shows "test_word_from kw prev s =
           (\<exists>pre w post. s = pre @ w @ post \<and> toUpperCase w = kw
              \<and> \<not> is_word (char_before prev pre)
              \<and> (post = [] \<or> \<not> isWordChar (hd post)))"
proof (induction s arbitrary: prev)
  case Nil
  from kw have "kw \<noteq> []"
    by (simp add: plain_keyword_def)
  then show ?case
    by (auto simp: word_here_iff [OF kw] toUpperCase_def)
next
  case (Cons c cs)
  show ?case
  proof
    assume "test_word_from kw prev (c # cs)"
    then consider "word_here kw prev (c # cs)" | "test_word_from kw (Some c) cs"
      by (auto split: if_splits)
    then show "\<exists>pre w post. c # cs = pre @ w @ post \<and> toUpperCase w = kw
              \<and> \<not> is_word (char_before prev pre)
              \<and> (post = [] \<or> \<not> isWordChar (hd post))"
    proof cases
      case 1
      then obtain w post where "c # cs = w @ post" "toUpperCase w = kw" "\<not> is_word prev"
          "post = [] \<or> \<not> isWordChar (hd post)"
        unfolding word_here_iff [OF kw] by blast
      then have "c # cs = [] @ w @ post \<and> toUpperCase w = kw
          \<and> \<not> is_word (char_before prev []) \<and> (post = [] \<or> \<not> isWordChar (hd post))"
        by (simp add: char_before_def)
      then show ?thesis
        by blast
    next
      case 2
      then obtain pre w post where d: "cs = pre @ w @ post" "toUpperCase w = kw"
          "\<not> is_word (char_before (Some c) pre)" "post = [] \<or> \<not> isWordChar (hd post)"
        unfolding Cons.IH by blast
      then have "c # cs = (c # pre) @ w @ post \<and> toUpperCase w = kw
          \<and> \<not> is_word (char_before prev (c # pre)) \<and> (post = [] \<or> \<not> isWordChar (hd post))"
        by (auto simp: char_before_def split: if_splits)
      then show ?thesis
        by blast
    qed
  next
    assume "\<exists>pre w post. c # cs = pre @ w @ post \<and> toUpperCase w = kw
              \<and> \<not> is_word (char_before prev pre)
              \<and> (post = [] \<or> \<not> isWordChar (hd post))"
    then obtain pre w post where d: "c # cs = pre @ w @ post" "toUpperCase w = kw"
        "\<not> is_word (char_before prev pre)" "post = [] \<or> \<not> isWordChar (hd post)"
      by blast
    show "test_word_from kw prev (c # cs)"
    proof (cases pre)
      case Nil
      with d have "word_here kw prev (c # cs)"
        unfolding word_here_iff [OF kw] by (auto simp: char_before_def)
      then show ?thesis
        by simp
    next
      case (Cons a pre')
      with d have "cs = pre' @ w @ post" and "\<not> is_word (char_before (Some c) pre')"
        by (auto simp: char_before_def)
      with d have "test_word_from kw (Some c) cs"
        unfolding Cons.IH by blast
      then show ?thesis
        by simp
    qed
  qed
qed

lemma test_word_iff:
  assumes kw: "plain_keyword kw"
  shows "test_word kw s =
           (\<exists>pre w post. s = pre @ w @ post \<and> toUpperCase w = kw
              \<and> (pre = [] \<or> \<not> isWordChar (last pre))
              \<and> (post = [] \<or> \<not> isWordChar (hd post)))"
proof -
  have "\<not> is_word (char_before None pre) = (pre = [] \<or> \<not> isWordChar (last pre))" for pre
    by (simp add: is_word_char_before is_word_None)
  then show ?thesis
    by (simp add: test_word_def test_word_from_iff [OF kw])
qed

lemma forbidden_plain: "kw \<in> set FORBIDDEN_SQL_KEYWORDS \<Longrightarrow> plain_keyword kw"
proof -
  have "list_all plain_keyword FORBIDDEN_SQL_KEYWORDS"
    by code_simp
  then show "kw \<in> set FORBIDDEN_SQL_KEYWORDS \<Longrightarrow> plain_keyword kw"
    by (simp add: list_all_iff)
qed


section \<open>Properties of the policy store\<close>

lemma isOperationAllowed_no_row:
  "(\<forall>p\<in>set tbl. \<not> (perm_role p = r \<and> perm_operation p = opn)) \<Longrightarrow>
   isOperationAllowed tbl r opn = None"
  by (simp add: isOperationAllowed_def find_None_iff)

text \<open>
  Claim C1. \<open>checkOperationPermission\<close> is fail-closed and hardcoded. Whatever the table
  holds and for every role: DDL is allowed exactly for ADMIN, with \<open>maxRows = 0\<close>; UNKNOWN
  is not allowed; and an operation other than DDL for which the table has no row of that
  role is not allowed. The lookup upper-cases the operation's name, which changes none of
  the names SELECT, INSERT, UPDATE, DELETE, JOIN and CTE.
\<close>

theorem checkOperationPermission_fail_closed:
  "allowed (checkOperationPermission tbl r ''DDL'') = (r = ''ADMIN'')
   \<and> maxRows (checkOperationPermission tbl r ''DDL'') = 0
   \<and> \<not> allowed (checkOperationPermission tbl r ''UNKNOWN'')
   \<and> (opn \<noteq> ''DDL'' \<longrightarrow>
        (\<forall>p\<in>set tbl. \<not> (perm_role p = r \<and> perm_operation p = toUpperCase opn)) \<longrightarrow>
        \<not> allowed (checkOperationPermission tbl r opn))"
  by (simp add: checkOperationPermission_def isOperationAllowed_no_row)

theorem checkOperationPermission_fail_closed_witness:
  "allowed (checkOperationPermission default_role_permissions ''ADMIN'' ''DDL'')
   \<and> \<not> allowed (checkOperationPermission default_role_permissions ''DEVELOPER'' ''DDL'')
   \<and> maxRows (checkOperationPermission default_role_permissions ''ADMIN'' ''DDL'') = 0
   \<and> \<not> allowed (checkOperationPermission default_role_permissions ''ADMIN'' ''UNKNOWN'')
   \<and> filter (\<lambda>p. perm_role p = ''ANALYST'' \<and> perm_operation p = ''MERGE'')
        default_role_permissions = []
   \<and> \<not> allowed (checkOperationPermission default_role_permissions ''ANALYST'' ''MERGE'')"
proof -
  have no_row: "\<forall>p\<in>set default_role_permissions.
      \<not> (perm_role p = ''ANALYST'' \<and> perm_operation p = toUpperCase ''MERGE'')"
    by code_simp
  have other: "''MERGE'' \<noteq> ''DDL''"
    by simp
  have empty: "filter (\<lambda>p. perm_role p = ''ANALYST'' \<and> perm_operation p = ''MERGE'')
      default_role_permissions = []"
    by code_simp
  from checkOperationPermission_fail_closed [of default_role_permissions "''ADMIN''" "''MERGE''"]
    checkOperationPermission_fail_closed [of default_role_permissions "''DEVELOPER''" "''MERGE''"]
    checkOperationPermission_fail_closed [of default_role_permissions "''ANALYST''" "''MERGE''"]
    no_row other empty
  show ?thesis by simp
qed

lemma fold_addPermission:
  "fold addPermission ps acc =
     \<lparr>allowedOperations =
        allowedOperations acc @ map perm_operation (filter (\<lambda>p. is_allowed p \<noteq> 0) ps),
      roleMaxRows =
        fold max (map max_rows (filter (\<lambda>p. is_allowed p \<noteq> 0) ps)) (roleMaxRows acc)\<rparr>"
  by (induction ps arbitrary: acc) (simp_all add: addPermission_def max.commute)

text \<open>
  Claim C5, as amended. For every role, the \<open>allowedOperations\<close> that \<open>getRolePermissions\<close>
  returns are exactly the operations of the role's rows whose \<open>is_allowed\<close> is set, and its
  \<open>maxRows\<close> is the maximum of 1000 and the \<open>max_rows\<close> of those rows: the accumulator
  starts at 1000, not at the first row.
\<close>

theorem getRolePermissions_aggregate:
  "set (allowedOperations (getRolePermissions tbl r)) =
     {perm_operation p | p. p \<in> set tbl \<and> perm_role p = r \<and> is_allowed p \<noteq> 0}
   \<and> roleMaxRows (getRolePermissions tbl r) =
     Max (insert 1000 {max_rows p | p. p \<in> set tbl \<and> perm_role p = r \<and> is_allowed p \<noteq> 0})"
proof -
  let ?ps = "filter (\<lambda>p. is_allowed p \<noteq> 0) (getByRole tbl r)"
  have a: "allowedOperations (getRolePermissions tbl r) = map perm_operation ?ps"
    by (simp add: getRolePermissions_def fold_addPermission)
  have s: "set (map perm_operation ?ps) =
      {perm_operation p | p. p \<in> set tbl \<and> perm_role p = r \<and> is_allowed p \<noteq> 0}"
    by (auto simp: getByRole_def)
  have m: "roleMaxRows (getRolePermissions tbl r) = fold max (map max_rows ?ps) 1000"
    by (simp add: getRolePermissions_def fold_addPermission)
  have "fold max (map max_rows ?ps) 1000 = Max (set (1000 # map max_rows ?ps))"
    by (simp only: Max.set_eq_fold)
  also have "set (1000 # map max_rows ?ps) =
      insert 1000 {max_rows p | p. p \<in> set tbl \<and> perm_role p = r \<and> is_allowed p \<noteq> 0}"
    by (auto simp: getByRole_def)
  finally show ?thesis using a s m by simp
qed

theorem getRolePermissions_aggregate_witness:
  "set (allowedOperations (getRolePermissions default_role_permissions ''DEVELOPER'')) =
     {''SELECT'', ''JOIN'', ''CTE''}
   \<and> roleMaxRows (getRolePermissions default_role_permissions ''DEVELOPER'') = 10000"
proof -
  have allowed_rows: "filter (\<lambda>p. perm_role p = ''DEVELOPER'' \<and> is_allowed p \<noteq> 0)
      default_role_permissions =
      [\<lparr>perm_role = ''DEVELOPER'', perm_operation = ''SELECT'', is_allowed = 1, max_rows = 10000\<rparr>,
       \<lparr>perm_role = ''DEVELOPER'', perm_operation = ''JOIN'', is_allowed = 1, max_rows = 10000\<rparr>,
       \<lparr>perm_role = ''DEVELOPER'', perm_operation = ''CTE'', is_allowed = 1, max_rows = 10000\<rparr>]"
    by code_simp
  have "{perm_operation p | p. p \<in> set default_role_permissions \<and> perm_role p = ''DEVELOPER''
      \<and> is_allowed p \<noteq> 0} =
      set (map perm_operation (filter (\<lambda>p. perm_role p = ''DEVELOPER'' \<and> is_allowed p \<noteq> 0)
        default_role_permissions))"
    by auto
  then have ops: "{perm_operation p | p. p \<in> set default_role_permissions
      \<and> perm_role p = ''DEVELOPER'' \<and> is_allowed p \<noteq> 0} = {''SELECT'', ''JOIN'', ''CTE''}"
    by (simp only: allowed_rows) simp
  have "{max_rows p | p. p \<in> set default_role_permissions \<and> perm_role p = ''DEVELOPER''
      \<and> is_allowed p \<noteq> 0} =
      set (map max_rows (filter (\<lambda>p. perm_role p = ''DEVELOPER'' \<and> is_allowed p \<noteq> 0)
        default_role_permissions))"
    by auto
  then have caps: "{max_rows p | p. p \<in> set default_role_permissions
      \<and> perm_role p = ''DEVELOPER'' \<and> is_allowed p \<noteq> 0} = {10000}"
    by (simp only: allowed_rows) simp
  from getRolePermissions_aggregate [of default_role_permissions "''DEVELOPER''"] ops caps
  show ?thesis by simp
qed

text \<open>
  The claim as stated fails where every allowed operation of the role has a cap below
  1000: with the single row (ANALYST, SELECT, allowed, 500) the result is 1000, and the
  maximum of the allowed operations' caps is 500.
\<close>

theorem getRolePermissions_max_counterexample:
  "roleMaxRows (getRolePermissions
      [\<lparr>perm_role = ''ANALYST'', perm_operation = ''SELECT'', is_allowed = 1, max_rows = 500\<rparr>]
      ''ANALYST'') = 1000
   \<and> Max {max_rows p | p.
        p \<in> set [\<lparr>perm_role = ''ANALYST'', perm_operation = ''SELECT'', is_allowed = 1,
                    max_rows = 500\<rparr>]
        \<and> perm_role p = ''ANALYST'' \<and> is_allowed p \<noteq> 0} = 500"
proof -
  have "{max_rows p | p.
        p \<in> set [\<lparr>perm_role = ''ANALYST'', perm_operation = ''SELECT'', is_allowed = 1,
                    max_rows = 500\<rparr>]
        \<and> perm_role p = ''ANALYST'' \<and> is_allowed p \<noteq> 0} = {500}"
    by auto
  then show ?thesis
    by (simp add: getRolePermissions_def getByRole_def addPermission_def)
qed

section \<open>Properties of the connection pool manager\<close>

text \<open>
  Claim C10. If the config of the requested connection id does not exist, or exists with
  \<open>is_active\<close> false, \<open>getConnection\<close> fails in its synchronous part, before
  \<open>createPool\<close> is reached, with the not-found or the inactive error, and the state
  (the registry and the pools constructed so far) is the one it was called on.
\<close>

theorem getConnection_missing_or_inactive:
  "(findById (connections e) cid = None \<longrightarrow>
      getConnection_begin e st cid = Failed (ConnectionNotFound cid)
      \<and> getConnection e st cid = (Inl (ConnectionNotFound cid), st))
   \<and> (findById (connections e) cid = Some c \<and> is_active c = 0 \<longrightarrow>
      getConnection_begin e st cid = Failed (ConnectionInactive (conn_name c))
      \<and> getConnection e st cid = (Inl (ConnectionInactive (conn_name c)), st))"
  by (simp add: getConnection_def getConnection_begin_def getConnection_resume_def)

theorem getConnection_missing_or_inactive_witness:
  "findById (connections sample_environment) 4 = None
   \<and> getConnection sample_environment empty_registry 4 =
       (Inl (ConnectionNotFound 4), empty_registry)
   \<and> findById (connections sample_environment) 3 = Some (sample_connection 3 ''POSTGRESQL'' 0)
   \<and> is_active (sample_connection 3 ''POSTGRESQL'' 0) = 0
   \<and> getConnection sample_environment empty_registry 3 =
       (Inl (ConnectionInactive ''reporting''), empty_registry)"
proof -
  have missing: "findById (connections sample_environment) 4 = None"
    by (simp add: findById_def sample_environment_def sample_connection_def)
  have present: "findById (connections sample_environment) 3 =
      Some (sample_connection 3 ''POSTGRESQL'' 0)"
    by (simp add: findById_def sample_environment_def sample_connection_def)
  have off: "is_active (sample_connection 3 ''POSTGRESQL'' 0) = 0"
    and name: "conn_name (sample_connection 3 ''POSTGRESQL'' 0) = ''reporting''"
    by (simp_all add: sample_connection_def)
  from getConnection_missing_or_inactive
      [where e = sample_environment and cid = 4 and st = empty_registry]
    getConnection_missing_or_inactive
      [where e = sample_environment and cid = 3 and st = empty_registry
         and c = "sample_connection 3 ''POSTGRESQL'' 0"]
    missing present off name
  show ?thesis by simp
qed

text \<open>Any number of calls suspended on a miss for one id: every continuation constructs
  and registers a pool of its own.\<close>

lemma resume_step_miss:
  assumes "\<And>k. createPool e cfg k = Inr \<lparr>pool_type = t, pool_serial = k\<rparr>"
  shows "constructions (snd (resume_step e (cid, AwaitingPool cfg) acc)) =
           constructions (snd acc) @ [cid]"
  by (simp add: resume_step_def getConnection_resume_def assms Let_def)

lemma resume_all_constructs_each:
  assumes "\<And>k. createPool e cfg k = Inr \<lparr>pool_type = t, pool_serial = k\<rparr>"
  shows "constructions (snd (fold (resume_step e) (replicate n (cid, AwaitingPool cfg)) acc)) =
         constructions (snd acc) @ replicate n cid"
proof (induction n arbitrary: acc)
  case 0
  show ?case by (simp del: fold_replicate)
next
  case (Suc n)
  show ?case
    by (simp add: resume_step_miss [OF assms] Suc.IH replicate_app_Cons_same
        del: fold_replicate)
qed

lemma concurrent_calls_construct_each:
  assumes "getConnection_begin e st cid = AwaitingPool cfg"
    and "\<And>k. createPool e cfg k = Inr \<lparr>pool_type = t, pool_serial = k\<rparr>"
  shows "constructions (snd (getConnection_concurrently e st (replicate n cid))) =
           constructions st @ replicate n cid"
  using resume_all_constructs_each [of e cfg t n cid "([], st)"] assms
  by (simp add: getConnection_concurrently_def resume_all_def del: fold_replicate)

text \<open>
  Claim C3 at two concurrent first calls for the MySQL connection 1. Both calls pass
  \<open>pools.has\<close> before either reaches \<open>pools.set\<close>, so the pool constructor runs twice for
  id 1: the calls borrow from two different pools and the registry keeps the second. Two
  calls one after the other construct one pool.
\<close>

theorem concurrent_first_use_constructs_two_pools:
  "constructions (snd (getConnection_concurrently sample_environment empty_registry [1, 1])) =
       [1, 1]
   \<and> fst (getConnection_concurrently sample_environment empty_registry [1, 1]) =
       [Inr \<lparr>from_pool = 0, conn_type = ''MYSQL''\<rparr>, Inr \<lparr>from_pool = 1, conn_type = ''MYSQL''\<rparr>]
   \<and> pools (snd (getConnection_concurrently sample_environment empty_registry [1, 1])) 1 =
       Some \<lparr>pool_type = ''MYSQL'', pool_serial = 1\<rparr>
   \<and> constructions (snd (getConnection sample_environment
        (snd (getConnection sample_environment empty_registry 1)) 1)) = [1]"
  by code_simp

section \<open>Properties of the client-side validator\<close>

lemma forbidden_keyword_Some:
  "forbidden_keyword sql = Some k \<Longrightarrow> k \<in> set FORBIDDEN_SQL_KEYWORDS \<and> test_word k sql"
  by (auto simp: forbidden_keyword_def find_Some_iff)

lemma forbidden_keyword_hit:
  "kw \<in> set FORBIDDEN_SQL_KEYWORDS \<Longrightarrow> test_word kw sql \<Longrightarrow>
   \<exists>k. forbidden_keyword sql = Some k"
  by (cases "forbidden_keyword sql") (auto simp: forbidden_keyword_def find_None_iff)

lemma validate_keyword_error:
  "error (validate sql r schema) = Some (ForbiddenKeyword k) \<Longrightarrow>
   r \<noteq> ADMIN \<and> forbidden_keyword sql = Some k"
  by (auto simp: validate_def Let_def split: option.splits if_splits)

lemma validate_keyword_hit:
  "r \<noteq> ADMIN \<Longrightarrow> forbidden_keyword sql = Some k \<Longrightarrow>
   validate sql r schema =
     \<lparr>isValid = False, error = Some (ForbiddenKeyword k), sanitizedSql = None\<rparr>"
  by (simp add: validate_def)

text \<open>
  Claim C2. For every role other than ADMIN, \<open>validate\<close> rejects, with the forbidden-keyword
  error, every SQL string in which a forbidden keyword stands as a whole word, wherever it
  stands (the keyword named in the error is the first of the list that occurs so).
  Conversely the forbidden-keyword error is only ever returned for a role other than
  ADMIN and for a keyword of the list that stands as a whole word in the SQL: a keyword
  that occurs only inside a longer identifier, as CREATE in \<open>CREATED_AT\<close>, does not make
  the SQL rejected, and for ADMIN the pass is skipped.
\<close>

theorem forbidden_keyword_pass:
  "(r \<noteq> ADMIN \<and> kw \<in> set FORBIDDEN_SQL_KEYWORDS \<and> toUpperCase w = kw
      \<and> (pre = [] \<or> \<not> isWordChar (last pre)) \<and> (post = [] \<or> \<not> isWordChar (hd post))
    \<longrightarrow> (\<exists>k. k \<in> set FORBIDDEN_SQL_KEYWORDS
           \<and> validate (pre @ w @ post) r schema =
               \<lparr>isValid = False, error = Some (ForbiddenKeyword k), sanitizedSql = None\<rparr>))
   \<and> (error (validate sql r schema) = Some (ForbiddenKeyword k) \<longrightarrow>
        r \<noteq> ADMIN \<and> k \<in> set FORBIDDEN_SQL_KEYWORDS
        \<and> (\<exists>pre w post. sql = pre @ w @ post \<and> toUpperCase w = k
              \<and> (pre = [] \<or> \<not> isWordChar (last pre))
              \<and> (post = [] \<or> \<not> isWordChar (hd post))))
   \<and> error (validate sql ADMIN schema) \<noteq> Some (ForbiddenKeyword k)
   \<and> validate ''SELECT CREATED_AT FROM sales_orders'' ANALYST None =
       \<lparr>isValid = True, error = None,
        sanitizedSql =
          Some ''SELECT * FROM (SELECT CREATED_AT FROM sales_orders) WHERE ROWNUM <= 1000''\<rparr>"
proof (intro conjI impI)
  assume h: "r \<noteq> ADMIN \<and> kw \<in> set FORBIDDEN_SQL_KEYWORDS \<and> toUpperCase w = kw
      \<and> (pre = [] \<or> \<not> isWordChar (last pre)) \<and> (post = [] \<or> \<not> isWordChar (hd post))"
  then have "test_word kw (pre @ w @ post)"
    using test_word_iff [OF forbidden_plain, of kw "pre @ w @ post"] by blast
  with h obtain k where k: "forbidden_keyword (pre @ w @ post) = Some k"
    using forbidden_keyword_hit by blast
  with h forbidden_keyword_Some [OF k] validate_keyword_hit [of r "pre @ w @ post" k schema]
  show "\<exists>k. k \<in> set FORBIDDEN_SQL_KEYWORDS
           \<and> validate (pre @ w @ post) r schema =
               \<lparr>isValid = False, error = Some (ForbiddenKeyword k), sanitizedSql = None\<rparr>"
    by blast
next
  assume e: "error (validate sql r schema) = Some (ForbiddenKeyword k)"
  from validate_keyword_error [OF e] show "r \<noteq> ADMIN"
    by simp
  from validate_keyword_error [OF e] have f: "k \<in> set FORBIDDEN_SQL_KEYWORDS \<and> test_word k sql"
    using forbidden_keyword_Some by blast
  then show "k \<in> set FORBIDDEN_SQL_KEYWORDS"
    by simp
  from f show "\<exists>pre w post. sql = pre @ w @ post \<and> toUpperCase w = k
              \<and> (pre = [] \<or> \<not> isWordChar (last pre))
              \<and> (post = [] \<or> \<not> isWordChar (hd post))"
    using test_word_iff [OF forbidden_plain, of k sql] by blast
next
  show "error (validate sql ADMIN schema) \<noteq> Some (ForbiddenKeyword k)"
    using validate_keyword_error [of sql ADMIN schema k] by blast
next
  show "validate ''SELECT CREATED_AT FROM sales_orders'' ANALYST None =
       \<lparr>isValid = True, error = None,
        sanitizedSql =
          Some ''SELECT * FROM (SELECT CREATED_AT FROM sales_orders) WHERE ROWNUM <= 1000''\<rparr>"
    by code_simp
qed

theorem forbidden_keyword_pass_witness:
  "toUpperCase ''drop'' = ''DROP''
   \<and> \<not> isWordChar (last ''SELECT 1 WHERE x = ('')
   \<and> \<not> isWordChar (hd '' TABLE t)'')
   \<and> \<not> isValid (validate ''SELECT 1 WHERE x = (drop TABLE t)'' DEVELOPER None)
   \<and> error (validate ''drop table t'' ANALYST None) = Some (ForbiddenKeyword ''DROP'')
   \<and> ''drop table t'' = [] @ ''drop'' @ '' table t''
   \<and> error (validate ''drop table t'' ADMIN None) = None"
proof -
  have up: "toUpperCase ''drop'' = ''DROP''"
    and before: "\<not> isWordChar (last ''SELECT 1 WHERE x = ('')"
    and after: "\<not> isWordChar (hd '' TABLE t)'')"
    by code_simp+
  have listed: "''DROP'' \<in> set FORBIDDEN_SQL_KEYWORDS"
    by (simp add: FORBIDDEN_SQL_KEYWORDS_def)
  have role: "DEVELOPER \<noteq> ADMIN"
    by simp
  have whole: "''SELECT 1 WHERE x = ('' @ ''drop'' @ '' TABLE t)'' =
      ''SELECT 1 WHERE x = (drop TABLE t)''"
    by simp
  have e1: "error (validate ''drop table t'' ANALYST None) = Some (ForbiddenKeyword ''DROP'')"
    and e2: "error (validate ''drop table t'' ADMIN None) = None"
    by code_simp+
  from forbidden_keyword_pass [where r = DEVELOPER and kw = "''DROP''" and w = "''drop''"
      and pre = "''SELECT 1 WHERE x = (''" and post = "'' TABLE t)''" and schema = None
      and sql = "''drop table t''" and k = "''DROP''"]
    up before after listed role
  have "\<not> isValid (validate (''SELECT 1 WHERE x = ('' @ ''drop'' @ '' TABLE t)'') DEVELOPER None)"
    by auto
  with up before after e1 e2 whole show ?thesis
    by simp
qed

lemma not_word_semicolon: "\<not> isWordChar (CHR '';'')"
  by code_simp

lemma strip_semicolon_after_word:
  assumes "w \<noteq> []" and "isWordChar (last w)" and "rest = [] \<or> \<not> isWordChar (hd rest)"
  shows "\<exists>rest'. strip_semicolon (w @ rest) = w @ rest'
           \<and> (rest' = [] \<or> \<not> isWordChar (hd rest'))"
proof (cases "rest = []")
  case True
  with assms not_word_semicolon have "strip_semicolon (w @ rest) = w @ []"
    by (auto simp: strip_semicolon_def)
  then show ?thesis
    by blast
next
  case False
  show ?thesis
  proof (cases "last rest = CHR '';''")
    case True
    with False have "strip_semicolon (w @ rest) = w @ butlast rest"
      by (simp add: strip_semicolon_def butlast_append)
    moreover have "butlast rest = [] \<or> \<not> isWordChar (hd (butlast rest))"
      using assms(3) False by (cases rest) auto
    ultimately show ?thesis
      by blast
  next
    case False
    with \<open>rest \<noteq> []\<close> have "strip_semicolon (w @ rest) = w @ rest"
      by (simp add: strip_semicolon_def)
    with assms(3) show ?thesis
      by blast
  qed
qed

lemma test_prefix_word_at_head:
  assumes kw: "plain_keyword kw" and w: "toUpperCase w = kw"
    and rest: "rest = [] \<or> \<not> isWordChar (hd rest)"
  shows "test_prefix_word kw (w @ rest)"
proof -
  note m = keyword_match [OF kw w]
  from m have "\<not> isSpaceChar (hd w)"
    by (simp add: isWordChar_not_space)
  with m have "dropWhile isSpaceChar (w @ rest) = w @ rest"
    by (cases w) simp_all
  moreover from m have "starts_with_ci kw (w @ rest)"
    by (simp add: starts_with_ci_def)
  moreover from m have "is_word (char_before None (take (length kw) (w @ rest)))"
    by (simp add: is_word_char_before)
  moreover from m rest have "\<not> is_word (first_char (drop (length kw) (w @ rest)))"
    by (auto simp: is_word_first_char)
  ultimately show ?thesis
    by (simp add: test_prefix_word_def boundary_def)
qed

lemma validate_valid:
  "isValid (validate sql r schema) \<Longrightarrow>
   sanitizedSql (validate sql r schema) = Some (enforce_limit sql)"
  by (auto simp: validate_def Let_def split: option.splits if_splits)

text \<open>
  Claim C8. For every input whose trimmed text starts with the word SELECT or WITH (in
  any case) and whose upper-cased text contains neither ROWNUM nor FETCH FIRST, a
  successful validation returns as sanitized SQL the trimmed text, less one trailing
  semicolon, wrapped as \<open>SELECT * FROM (...) WHERE ROWNUM <= 1000\<close>. \<open>validate\<close> takes no
  engine type: the Oracle idiom and the bound 1000 are the same for every target.
\<close>

theorem select_is_wrapped_for_oracle:
  assumes "isValid (validate sql r schema)"
    and "trim sql = w @ rest"
    and "toUpperCase w = ''SELECT'' \<or> toUpperCase w = ''WITH''"
    and "rest = [] \<or> \<not> isWordChar (hd rest)"
    and "\<not> str_includes (toUpperCase sql) ''ROWNUM''"
    and "\<not> str_includes (toUpperCase sql) ''FETCH FIRST''"
  shows "sanitizedSql (validate sql r schema) =
           Some (''SELECT * FROM ('' @ strip_semicolon (trim sql) @ '') WHERE ROWNUM <= 1000'')"
proof -
  have plain: "plain_keyword ''SELECT''" "plain_keyword ''WITH''"
    by code_simp+
  with assms(3) have pk: "plain_keyword (toUpperCase w)"
    by auto
  note m = keyword_match [OF pk refl]
  from strip_semicolon_after_word [OF m(1) m(3) assms(4)]
  obtain rest' where s: "strip_semicolon (trim sql) = w @ rest'"
    and r: "rest' = [] \<or> \<not> isWordChar (hd rest')"
    unfolding assms(2) by blast
  have "test_prefix_word (toUpperCase w) (strip_semicolon (trim sql))"
    unfolding s by (rule test_prefix_word_at_head [OF pk refl r])
  with assms(3) have "test_prefix_word ''SELECT'' (strip_semicolon (trim sql))
      \<or> test_prefix_word ''WITH'' (strip_semicolon (trim sql))"
    by auto
  with assms(5,6) have "enforce_limit sql =
      ''SELECT * FROM ('' @ strip_semicolon (trim sql) @ '') WHERE ROWNUM <= 1000''"
    by (simp add: enforce_limit_def Let_def)
  with validate_valid [OF assms(1)] show ?thesis
    by simp
qed

theorem select_is_wrapped_for_oracle_witness:
  "isValid (validate ''  with t as (select 1) select * from t; '' DEVELOPER None)
   \<and> trim ''  with t as (select 1) select * from t; '' = ''with'' @ '' t as (select 1) select * from t;''
   \<and> toUpperCase ''with'' = ''WITH''
   \<and> \<not> isWordChar (hd '' t as (select 1) select * from t;'')
   \<and> \<not> str_includes (toUpperCase ''  with t as (select 1) select * from t; '') ''ROWNUM''
   \<and> \<not> str_includes (toUpperCase ''  with t as (select 1) select * from t; '') ''FETCH FIRST''
   \<and> sanitizedSql (validate ''  with t as (select 1) select * from t; '' DEVELOPER None) =
       Some ''SELECT * FROM (with t as (select 1) select * from t) WHERE ROWNUM <= 1000''"
proof -
  let ?sql = "''  with t as (select 1) select * from t; ''"
  have v: "isValid (validate ?sql DEVELOPER None)"
    by code_simp
  have t: "trim ?sql = ''with'' @ '' t as (select 1) select * from t;''"
    by code_simp
  have u: "toUpperCase ''with'' = ''WITH''"
    by code_simp
  have b: "\<not> isWordChar (hd '' t as (select 1) select * from t;'')"
    by code_simp
  have n1: "\<not> str_includes (toUpperCase ?sql) ''ROWNUM''"
    by code_simp
  have n2: "\<not> str_includes (toUpperCase ?sql) ''FETCH FIRST''"
    by code_simp
  have inner: "strip_semicolon (trim ?sql) = ''with t as (select 1) select * from t''"
    by code_simp
  from select_is_wrapped_for_oracle [OF v t _ _ n1 n2] u b
  have "sanitizedSql (validate ?sql DEVELOPER None) =
      Some (''SELECT * FROM ('' @ strip_semicolon (trim ?sql) @ '') WHERE ROWNUM <= 1000'')"
    by blast
  with v t u b n1 n2 inner show ?thesis
    by simp
qed

text \<open>
  Claim C7, as amended. For ANALYST the two-statement input
  \<open>SELECT * FROM t; DROP TABLE t;\<close> is invalid with the forbidden-keyword error for DROP:
  the keyword pass runs first and stops the validation. The multiple-statements error is
  what the same input gives for ADMIN, for whom the keyword pass is skipped. Both hold
  for every schema argument.
\<close>

theorem stacked_statements_rejected:
  "validate ''SELECT * FROM t; DROP TABLE t;'' ANALYST schema =
     \<lparr>isValid = False, error = Some (ForbiddenKeyword ''DROP''), sanitizedSql = None\<rparr>
   \<and> validate ''SELECT * FROM t; DROP TABLE t;'' ADMIN schema =
     \<lparr>isValid = False, error = Some MultipleStatements, sanitizedSql = None\<rparr>"
proof -
  have keyword: "forbidden_keyword ''SELECT * FROM t; DROP TABLE t;'' = Some ''DROP''"
    by code_simp
  have stacked: "multiple_statements ''SELECT * FROM t; DROP TABLE t;''"
    by code_simp
  show ?thesis
    by (simp add: validate_def keyword stacked)
qed

theorem stacked_statements_rejected_witness:
  "error (validate ''SELECT * FROM t; DROP TABLE t;'' ANALYST None) =
     Some (ForbiddenKeyword ''DROP'')
   \<and> error (validate ''SELECT * FROM t; DROP TABLE t;'' ADMIN (Some [])) =
     Some MultipleStatements"
  using stacked_statements_rejected [of None] stacked_statements_rejected [of "Some []"]
  by simp

text \<open>The claim as stated fails: for ANALYST the error of that input is not the
  multiple-statements error.\<close>

theorem stacked_statements_counterexample:
  "isValid (validate ''SELECT * FROM t; DROP TABLE t;'' ANALYST None) = False
   \<and> error (validate ''SELECT * FROM t; DROP TABLE t;'' ANALYST None) \<noteq>
       Some MultipleStatements"
  by code_simp

section \<open>Properties of the two validators together\<close>

text \<open>
  Claim C4. Whenever the permission lookup for (ANALYST, SELECT) finds an allowed row,
  validating \<open>SELECT * FROM sales_orders\<close> for ANALYST succeeds: \<open>validate\<close> (with its
  default schema) returns the SQL wrapped in the row-limiting subquery,
  \<open>validateSqlPermissions\<close> returns as \<open>maxRows\<close> the \<open>max_rows\<close> of the row found, for the
  SQL as written and for the wrapped SQL, and what reaches \<open>executeQuery\<close> is the wrapped
  SQL together with that \<open>max_rows\<close>: 1000 when the row says 1000.
\<close>

theorem validate_select_sales_orders:
  assumes "isOperationAllowed tbl ''ANALYST'' ''SELECT'' = Some p"
    and "is_allowed p = 1"
  shows "validate ''SELECT * FROM sales_orders'' ANALYST None =
      \<lparr>isValid = True, error = None,
       sanitizedSql = Some ''SELECT * FROM (SELECT * FROM sales_orders) WHERE ROWNUM <= 1000''\<rparr>
    \<and> validateSqlPermissions tbl ''SELECT * FROM sales_orders'' ''ANALYST'' =
      \<lparr>valid = True, perm_error = None, checkMaxRows = max_rows p\<rparr>
    \<and> validateSqlPermissions tbl
        ''SELECT * FROM (SELECT * FROM sales_orders) WHERE ROWNUM <= 1000'' ''ANALYST'' =
      \<lparr>valid = True, perm_error = None, checkMaxRows = max_rows p\<rparr>
    \<and> prepare_query tbl ''SELECT * FROM sales_orders'' ANALYST None =
      Inr \<lparr>final_sql = ''SELECT * FROM (SELECT * FROM sales_orders) WHERE ROWNUM <= 1000'',
           final_maxRows = max_rows p\<rparr>"
proof -
  have client: "validate ''SELECT * FROM sales_orders'' ANALYST None =
      \<lparr>isValid = True, error = None,
       sanitizedSql = Some ''SELECT * FROM (SELECT * FROM sales_orders) WHERE ROWNUM <= 1000''\<rparr>"
    by code_simp
  have upper: "trim (toUpperCase ''SELECT * FROM sales_orders'') = ''SELECT * FROM SALES_ORDERS''"
    by code_simp
  have operation: "detect_operation ''SELECT * FROM SALES_ORDERS'' = ''SELECT''"
    by code_simp
  have no_join: "\<not> test_word ''JOIN'' ''SELECT * FROM SALES_ORDERS''"
    by code_simp
  have no_cte: "\<not> test_cte ''WITH'' ''AS'' ''SELECT * FROM SALES_ORDERS''"
    by code_simp
  have name: "toUpperCase ''SELECT'' = ''SELECT''"
    by code_simp
  have permission: "checkOperationPermission tbl ''ANALYST'' ''SELECT'' =
      \<lparr>allowed = True, maxRows = max_rows p\<rparr>"
    using assms name by (simp add: checkOperationPermission_def)
  then have server: "validateSqlPermissions tbl ''SELECT * FROM sales_orders'' ''ANALYST'' =
      \<lparr>valid = True, perm_error = None, checkMaxRows = max_rows p\<rparr>"
    by (simp add: validateSqlPermissions_def upper operation no_join no_cte)
  have upper': "trim (toUpperCase ''SELECT * FROM (SELECT * FROM sales_orders) WHERE ROWNUM <= 1000'') =
      ''SELECT * FROM (SELECT * FROM SALES_ORDERS) WHERE ROWNUM <= 1000''"
    by code_simp
  have operation': "detect_operation
      ''SELECT * FROM (SELECT * FROM SALES_ORDERS) WHERE ROWNUM <= 1000'' = ''SELECT''"
    by code_simp
  have no_join': "\<not> test_word ''JOIN''
      ''SELECT * FROM (SELECT * FROM SALES_ORDERS) WHERE ROWNUM <= 1000''"
    by code_simp
  have no_cte': "\<not> test_cte ''WITH'' ''AS''
      ''SELECT * FROM (SELECT * FROM SALES_ORDERS) WHERE ROWNUM <= 1000''"
    by code_simp
  from permission have wrapped: "validateSqlPermissions tbl
        ''SELECT * FROM (SELECT * FROM sales_orders) WHERE ROWNUM <= 1000'' ''ANALYST'' =
      \<lparr>valid = True, perm_error = None, checkMaxRows = max_rows p\<rparr>"
    by (simp add: validateSqlPermissions_def upper' operation' no_join' no_cte')
  have given: "trim ''SELECT * FROM sales_orders'' \<noteq> []"
    and sent: "trim ''SELECT * FROM (SELECT * FROM sales_orders) WHERE ROWNUM <= 1000'' \<noteq> []"
    by code_simp+
  have path: "prepare_query tbl ''SELECT * FROM sales_orders'' ANALYST None =
      Inr \<lparr>final_sql = ''SELECT * FROM (SELECT * FROM sales_orders) WHERE ROWNUM <= 1000'',
           final_maxRows = max_rows p\<rparr>"
    by (simp add: prepare_query_def client given sent wrapped)
  from client server wrapped path show ?thesis
    by simp
qed

text \<open>With the rows of schema.sql the cap is 1000; with a row that says 250 it is 250.\<close>

theorem validate_select_sales_orders_witness:
  "isOperationAllowed default_role_permissions ''ANALYST'' ''SELECT'' =
     Some \<lparr>perm_role = ''ANALYST'', perm_operation = ''SELECT'', is_allowed = 1, max_rows = 1000\<rparr>
   \<and> isValid (validate ''SELECT * FROM sales_orders'' ANALYST None)
   \<and> validateSqlPermissions default_role_permissions ''SELECT * FROM sales_orders'' ''ANALYST'' =
     \<lparr>valid = True, perm_error = None, checkMaxRows = 1000\<rparr>
   \<and> prepare_query default_role_permissions ''SELECT * FROM sales_orders'' ANALYST None =
     Inr \<lparr>final_sql = ''SELECT * FROM (SELECT * FROM sales_orders) WHERE ROWNUM <= 1000'',
          final_maxRows = 1000\<rparr>
   \<and> prepare_query
       [\<lparr>perm_role = ''ANALYST'', perm_operation = ''SELECT'', is_allowed = 1, max_rows = 250\<rparr>]
       ''SELECT * FROM sales_orders'' ANALYST None =
     Inr \<lparr>final_sql = ''SELECT * FROM (SELECT * FROM sales_orders) WHERE ROWNUM <= 1000'',
          final_maxRows = 250\<rparr>"
proof -
  let ?p = "\<lparr>perm_role = ''ANALYST'', perm_operation = ''SELECT'', is_allowed = 1,
      max_rows = 1000\<rparr>"
  let ?q = "\<lparr>perm_role = ''ANALYST'', perm_operation = ''SELECT'', is_allowed = 1,
      max_rows = 250\<rparr>"
  have row: "isOperationAllowed default_role_permissions ''ANALYST'' ''SELECT'' = Some ?p"
    by code_simp
  have row': "isOperationAllowed [?q] ''ANALYST'' ''SELECT'' = Some ?q"
    by code_simp
  from validate_select_sales_orders [OF row] validate_select_sales_orders [OF row'] row
  show ?thesis
    by simp
qed

section \<open>Properties of the server-side classification\<close>

text \<open>
  Claim C6 at inputs whose first word only begins with a keyword. The operation
  detection of \<open>validateSqlPermissions\<close> tests prefixes, with no word boundary after the
  keyword: \<open>SELECTION FROM t\<close> is classified SELECT (and passes for ANALYST with the
  default table), and \<open>created_date = 1\<close> is classified DDL. The client-side pattern
  \<open>/^\s*(SELECT|WITH)\b/i\<close> does not match \<open>SELECTION FROM t\<close>.
\<close>

theorem detect_operation_matches_prefixes:
  "detect_operation (trim (toUpperCase ''SELECTION FROM t'')) = ''SELECT''
   \<and> validateSqlPermissions default_role_permissions ''SELECTION FROM t'' ''ANALYST'' =
       \<lparr>valid = True, perm_error = None, checkMaxRows = 1000\<rparr>
   \<and> detect_operation (trim (toUpperCase ''created_date = 1'')) = ''DDL''
   \<and> test_prefix_word ''SELECT'' ''SELECTION FROM t'' = False"
  by code_simp

section \<open>Properties of the query executor\<close>

lemma borrow_Inr: "borrow p = Inr conn \<Longrightarrow> conn_type conn = pool_type p"
  by (auto simp: borrow_def split: if_splits)

lemma getConnection_begin_present:
  "getConnection_begin e st cid = PoolPresent p \<Longrightarrow> pools st cid = Some p"
  by (auto simp: getConnection_begin_def split: option.splits if_splits)

lemma getConnection_Inr:
  assumes "getConnection e st cid = (Inr conn, st')"
  shows "\<exists>p. pools st' cid = Some p \<and> conn_type conn = pool_type p"
proof (cases "getConnection_begin e st cid")
  case (Failed err)
  with assms show ?thesis
    by (simp add: getConnection_def getConnection_resume_def)
next
  case (AwaitingPool cfg)
  with assms show ?thesis
    by (auto simp: getConnection_def getConnection_resume_def Let_def
        split: sum.splits dest: borrow_Inr)
next
  case (PoolPresent p)
  with assms getConnection_begin_present [OF PoolPresent] show ?thesis
    by (auto simp: getConnection_def getConnection_resume_def dest: borrow_Inr)
qed

lemma slice0_nonneg: "0 \<le> m \<Longrightarrow> slice0 rs m = take (nat m) rs"
  by (simp add: slice0_def)

lemma run_on_mysql_pg:
  assumes "run_on e drv t sql m = Inr q" and "t = ''MYSQL'' \<or> t = ''POSTGRESQL''"
  shows "\<exists>res rs. drv t sql None = Inr res \<and> result_rows res = Some rs
           \<and> rows q = slice0 rs m \<and> rowCount q = length (rows q)"
  using assms by (auto simp: run_on_def Let_def split: sum.splits option.splits)

lemma run_on_oracle:
  assumes "run_on e drv ''ORACLE'' sql m = Inr q"
  shows "\<exists>res. drv ''ORACLE'' sql (Some m) = Inr res
           \<and> rows q = (case result_rows res of Some rs \<Rightarrow> rs | None \<Rightarrow> [])
           \<and> rowCount q = length (rows q)"
  using assms by (auto simp: run_on_def Let_def split: sum.splits option.splits)

text \<open>
  Claim C9, as amended. Whenever \<open>executeQuery\<close> returns a result, \<open>rowCount\<close> is the
  number of rows returned. On a MYSQL or POSTGRESQL pool the rows are
  \<open>rows.slice(0, maxRows)\<close> of the row array the driver returned, so for \<open>maxRows \<ge> 0\<close>
  its first \<open>maxRows\<close> rows and at most \<open>maxRows\<close> of them, whatever the SQL did. On an
  ORACLE pool \<open>executeQuery\<close> truncates nothing: it hands \<open>maxRows\<close> to the driver as an
  execute option and returns the rows the driver gives back.
\<close>

theorem executeQuery_row_limit:
  assumes "executeQuery e drv st cid sql m = (Inr q, st')"
  shows "\<exists>p. pools st' cid = Some p \<and> rowCount q = length (rows q)
     \<and> (pool_type p = ''MYSQL'' \<or> pool_type p = ''POSTGRESQL'' \<longrightarrow>
          (\<exists>res rs. drv (pool_type p) sql None = Inr res \<and> result_rows res = Some rs
             \<and> rows q = slice0 rs m
             \<and> (0 \<le> m \<longrightarrow> rows q = take (nat m) rs \<and> int (length (rows q)) \<le> m
                   \<and> int (rowCount q) \<le> m)))
     \<and> (pool_type p = ''ORACLE'' \<longrightarrow>
          (\<exists>res. drv ''ORACLE'' sql (Some m) = Inr res
             \<and> rows q = (case result_rows res of Some rs \<Rightarrow> rs | None \<Rightarrow> [])))"
proof -
  from assms obtain conn where g: "getConnection e st cid = (Inr conn, st')"
    and r: "run_on e drv (conn_type conn) sql m = Inr q"
    by (auto simp: executeQuery_def split: prod.splits sum.splits)
  from getConnection_Inr [OF g] obtain p where p: "pools st' cid = Some p"
    and t: "conn_type conn = pool_type p"
    by blast
  have count: "rowCount q = length (rows q)"
    using r by (auto simp: run_on_def Let_def split: sum.splits option.splits if_splits)
  have my: "\<exists>res rs. drv (pool_type p) sql None = Inr res \<and> result_rows res = Some rs
             \<and> rows q = slice0 rs m
             \<and> (0 \<le> m \<longrightarrow> rows q = take (nat m) rs \<and> int (length (rows q)) \<le> m
                   \<and> int (rowCount q) \<le> m)"
    if "pool_type p = ''MYSQL'' \<or> pool_type p = ''POSTGRESQL''"
  proof -
    from run_on_mysql_pg [OF r [unfolded t] that] obtain res rs
      where d: "drv (pool_type p) sql None = Inr res" "result_rows res = Some rs"
        "rows q = slice0 rs m"
      by blast
    have "rows q = take (nat m) rs \<and> int (length (rows q)) \<le> m \<and> int (rowCount q) \<le> m"
      if "0 \<le> m"
      using that d count by (simp add: slice0_nonneg)
    with d show ?thesis by blast
  qed
  have ora: "\<exists>res. drv ''ORACLE'' sql (Some m) = Inr res
             \<and> rows q = (case result_rows res of Some rs \<Rightarrow> rs | None \<Rightarrow> [])"
    if "pool_type p = ''ORACLE''"
    using run_on_oracle [of e drv sql m q] r t that by auto
  from p count my ora show ?thesis by blast
qed

theorem executeQuery_row_limit_witness:
  "fst (executeQuery sample_environment (table_driver [1, 2, 3]) empty_registry 1
          ''SELECT id FROM t'' 2) =
     Inr \<lparr>columns = [''id''], rows = [1, 2], rowCount = 2\<rparr>
   \<and> int (length (rows \<lparr>columns = [''id''], rows = [1, 2::nat], rowCount = 2\<rparr>)) \<le> 2"
proof -
  let ?run = "executeQuery sample_environment (table_driver [1, 2, 3]) empty_registry 1
          ''SELECT id FROM t'' 2"
  let ?q = "\<lparr>columns = [''id''], rows = [1, 2::nat], rowCount = 2\<rparr>"
  have res: "fst ?run = Inr ?q"
    by code_simp
  then have run: "?run = (Inr ?q, snd ?run)"
    by (metis prod.collapse)
  have pool: "pools (snd ?run) 1 = Some \<lparr>pool_type = ''MYSQL'', pool_serial = 0\<rparr>"
    by code_simp
  from executeQuery_row_limit [OF run] pool
  have "int (length (rows ?q)) \<le> 2"
    by auto
  with res show ?thesis by simp
qed

text \<open>
  The claim as stated fails on an ORACLE pool: with \<open>maxRows = 0\<close>, which the driver reads
  as no limit, the three rows of the table come back (a MYSQL pool on the same table
  returns none). It also fails for a negative \<open>maxRows\<close>, which \<open>slice\<close> counts from the
  end: with \<open>maxRows = -1\<close> a MYSQL pool returns two of the three rows.
\<close>

theorem executeQuery_oracle_counterexample:
  "fst (executeQuery sample_environment (table_driver [1, 2, 3]) empty_registry 2
          ''SELECT id FROM t'' 0) =
     Inr \<lparr>columns = [''id''], rows = [1, 2, 3], rowCount = 3\<rparr>
   \<and> fst (executeQuery sample_environment (table_driver [1, 2, 3]) empty_registry 1
          ''SELECT id FROM t'' 0) =
     Inr \<lparr>columns = [''id''], rows = [], rowCount = 0\<rparr>
   \<and> fst (executeQuery sample_environment (table_driver [1, 2, 3]) empty_registry 1
          ''SELECT id FROM t'' (- 1)) =
     Inr \<lparr>columns = [''id''], rows = [1, 2], rowCount = 2\<rparr>"
  by code_simp

end
